theory Spec2Isabelle
  imports Main
begin

section \<open>The gesture classifier of composables/useDoubleClick.js\<close>

text \<open>
  The composable keeps nine Vue refs and schedules three kinds of deferred actions with
  \<^verbatim>\<open>setTimeout\<close>. The embedding makes the JavaScript timer queue explicit: every live
  timer is an entry of \<open>pending\<close>, \<^verbatim>\<open>setTimeout\<close> appends an entry under a fresh handle and
  \<^verbatim>\<open>clearTimeout\<close> removes the entry with the given handle. \<^verbatim>\<open>Date.now()\<close> is a parameter
  of every handler that reads the clock (milliseconds, an integer). Callbacks are external
  code: a callback either returns or raises, and every invocation is recorded together with
  the refs and the timer queue as they stand at that instant.
\<close>

subsection \<open>Data\<close>

datatype raw_event = RawEvent nat

text \<open>Handles returned by \<^verbatim>\<open>setTimeout\<close>; every handle is truthy, \<open>None\<close> is \<^verbatim>\<open>null\<close>.\<close>

datatype timer_id = TimerId nat

datatype outcome = Returned | Raised

datatype gesture = SingleClick | DoubleClick | LongPress

text \<open>The three closures handed to \<^verbatim>\<open>setTimeout\<close>, each with the event it captured.\<close>

datatype action = LongPressFire raw_event | SingleClickFire raw_event | SuppressExpire

record timer =
  tid :: timer_id
  due :: int
  act :: action

record config =
  delay :: int
  onSingleClick :: "(raw_event \<Rightarrow> outcome) option"
  onDoubleClick :: "(raw_event \<Rightarrow> outcome) option"
  onLongPress :: "(raw_event \<Rightarrow> outcome) option"
  longPressDelay :: int

record session =
  clickCount :: nat
  isLongPress :: bool
  touchStartTime :: int
  singleClickTimer :: "timer_id option"
  longPressTimer :: "timer_id option"
  lastClickTime :: int
  isDoubleClickProcessed :: bool
  suppressClickUntil :: int
  suppressTimer :: "timer_id option"

record call =
  cb_gesture :: gesture
  cb_event :: raw_event
  cb_outcome :: outcome
  cb_session :: session
  cb_pending :: "timer list"

record world = session +
  pending :: "timer list"
  nextId :: nat
  calls :: "call list"

definition default_config :: config where
  "default_config =
     \<lparr>delay = 300, onSingleClick = None, onDoubleClick = None, onLongPress = None,
      longPressDelay = 800\<rparr>"

definition init_session :: session where
  "init_session =
     \<lparr>clickCount = 0, isLongPress = False, touchStartTime = 0, singleClickTimer = None,
      longPressTimer = None, lastClickTime = 0, isDoubleClickProcessed = False,
      suppressClickUntil = 0, suppressTimer = None\<rparr>"

definition init_world :: world where
  "init_world =
     \<lparr>clickCount = 0, isLongPress = False, touchStartTime = 0, singleClickTimer = None,
      longPressTimer = None, lastClickTime = 0, isDoubleClickProcessed = False,
      suppressClickUntil = 0, suppressTimer = None, pending = [], nextId = 1, calls = []\<rparr>"

text \<open>The refs of a world, without the runtime's part.\<close>

definition session_of :: "world \<Rightarrow> session" where
  "session_of w =
     \<lparr>clickCount = clickCount w, isLongPress = isLongPress w,
      touchStartTime = touchStartTime w, singleClickTimer = singleClickTimer w,
      longPressTimer = longPressTimer w, lastClickTime = lastClickTime w,
      isDoubleClickProcessed = isDoubleClickProcessed w,
      suppressClickUntil = suppressClickUntil w, suppressTimer = suppressTimer w\<rparr>"

subsection \<open>The timer queue\<close>

text \<open>\<^verbatim>\<open>setTimeout(f, ms)\<close>: a negative delay counts as 0; the handle is fresh.\<close>

definition setTimeout :: "action \<Rightarrow> int \<Rightarrow> int \<Rightarrow> world \<Rightarrow> timer_id \<times> world" where
  "setTimeout a now ms w =
     (TimerId (nextId w),
      w\<lparr>pending := pending w @ [\<lparr>tid = TimerId (nextId w), due = now + max 0 ms, act = a\<rparr>],
        nextId := Suc (nextId w)\<rparr>)"

text \<open>\<^verbatim>\<open>clearTimeout(i)\<close>: a handle that is no longer live is ignored.\<close>

definition clearTimeout :: "timer_id \<Rightarrow> world \<Rightarrow> world" where
  "clearTimeout i w = w\<lparr>pending := filter (\<lambda>t. tid t \<noteq> i) (pending w)\<rparr>"

text \<open>
  \<^verbatim>\<open>if (x.value) { clearTimeout(x.value); x.value = null }\<close> for each of the three slots.
\<close>

definition cancelSingleClickTimer :: "world \<Rightarrow> world" where
  "cancelSingleClickTimer w =
     (case singleClickTimer w of
        Some i \<Rightarrow> (clearTimeout i w)\<lparr>singleClickTimer := None\<rparr>
      | None \<Rightarrow> w)"

definition cancelLongPressTimer :: "world \<Rightarrow> world" where
  "cancelLongPressTimer w =
     (case longPressTimer w of
        Some i \<Rightarrow> (clearTimeout i w)\<lparr>longPressTimer := None\<rparr>
      | None \<Rightarrow> w)"

definition cancelSuppressTimer :: "world \<Rightarrow> world" where
  "cancelSuppressTimer w =
     (case suppressTimer w of
        Some i \<Rightarrow> (clearTimeout i w)\<lparr>suppressTimer := None\<rparr>
      | None \<Rightarrow> w)"

subsection \<open>Callbacks\<close>

text \<open>
  \<^verbatim>\<open>if (cb) { cb(event) }\<close> followed by the rest \<open>k\<close> of the enclosing function: a callback
  that raises abandons the rest, and the refs stay as they were when it was called.
\<close>

definition invoke ::
  "(raw_event \<Rightarrow> outcome) option \<Rightarrow> gesture \<Rightarrow> raw_event \<Rightarrow> (world \<Rightarrow> world) \<Rightarrow> world \<Rightarrow> world"
where
  "invoke cb g ev k w =
     (case cb of
        None \<Rightarrow> k w
      | Some f \<Rightarrow>
          (let w' = w\<lparr>calls := calls w @
                      [\<lparr>cb_gesture = g, cb_event = ev, cb_outcome = f ev,
                        cb_session = session_of w, cb_pending = pending w\<rparr>]\<rparr>
           in case f ev of Raised \<Rightarrow> w' | Returned \<Rightarrow> k w'))"

subsection \<open>clearAllTimers and resetState\<close>

definition clearAllTimers :: "world \<Rightarrow> world" where
  "clearAllTimers w = cancelSuppressTimer (cancelLongPressTimer (cancelSingleClickTimer w))"

definition resetState :: "bool \<Rightarrow> world \<Rightarrow> world" where
  "resetState preserveSuppression w =
     (let w1 = w\<lparr>clickCount := 0, isLongPress := False, touchStartTime := 0,
                 lastClickTime := 0, isDoubleClickProcessed := False\<rparr>;
          w2 = (if \<not> preserveSuppression then w1\<lparr>suppressClickUntil := 0\<rparr> else w1)
      in clearAllTimers w2)"

subsection \<open>The closures run by the timers\<close>

definition longPressFired :: "config \<Rightarrow> raw_event \<Rightarrow> world \<Rightarrow> world" where
  "longPressFired cfg ev w =
     invoke (onLongPress cfg) LongPress ev id (clearAllTimers (w\<lparr>isLongPress := True\<rparr>))"

definition singleClickFired :: "config \<Rightarrow> raw_event \<Rightarrow> world \<Rightarrow> world" where
  "singleClickFired cfg ev w =
     (if clickCount w = 1
      then invoke (onSingleClick cfg) SingleClick ev (resetState False) w
      else resetState False w)"

definition suppressExpired :: "world \<Rightarrow> world" where
  "suppressExpired w = w\<lparr>suppressClickUntil := 0\<rparr>"

subsection \<open>The handlers\<close>

definition handleTouchStart :: "config \<Rightarrow> int \<Rightarrow> raw_event \<Rightarrow> world \<Rightarrow> world" where
  "handleTouchStart cfg now ev w =
     (let w1 = w\<lparr>touchStartTime := now, isLongPress := False\<rparr>
      in case onLongPress cfg of
           Some f \<Rightarrow>
             (let (i, w2) = setTimeout (LongPressFire ev) now (longPressDelay cfg) w1
              in w2\<lparr>longPressTimer := Some i\<rparr>)
         | None \<Rightarrow> w1)"

definition handleTouchMove :: "world \<Rightarrow> world" where
  "handleTouchMove w = cancelLongPressTimer w"

definition handleTouchEnd :: "config \<Rightarrow> int \<Rightarrow> raw_event \<Rightarrow> world \<Rightarrow> world" where
  "handleTouchEnd cfg currentTime ev w =
     (if currentTime - lastClickTime w < 50 then w
      else
        let w1 = w\<lparr>lastClickTime := currentTime\<rparr>;
            touchDuration = currentTime - touchStartTime w1;
            w2 = cancelLongPressTimer w1
        in if isLongPress w2 \<or> touchDuration \<ge> longPressDelay cfg then resetState False w2
           else
             let w3 = w2\<lparr>clickCount := clickCount w2 + 1\<rparr>
             in if clickCount w3 = 1 then
                  (let (i, w4) = setTimeout (SingleClickFire ev) currentTime (delay cfg) w3
                   in w4\<lparr>singleClickTimer := Some i\<rparr>)
                else if clickCount w3 = 2 then
                  (let w4 = w3\<lparr>isDoubleClickProcessed := True,
                               suppressClickUntil := currentTime + 100\<rparr>;
                       w5 = cancelLongPressTimer (cancelSingleClickTimer w4);
                       (i, w6) = setTimeout SuppressExpire currentTime 100 w5;
                       w7 = w6\<lparr>suppressTimer := Some i\<rparr>
                   in invoke (onDoubleClick cfg) DoubleClick ev (resetState True) w7)
                else w3)"

definition handleClick :: "config \<Rightarrow> int \<Rightarrow> raw_event \<Rightarrow> world \<Rightarrow> world" where
  "handleClick cfg currentTime ev w =
     (if currentTime < suppressClickUntil w then w
      else if currentTime - lastClickTime w < 50 then w
      else
        let w1 = w\<lparr>lastClickTime := currentTime\<rparr>;
            w2 = cancelLongPressTimer w1;
            w3 = w2\<lparr>clickCount := clickCount w2 + 1\<rparr>
        in if clickCount w3 = 1 then
             (let (i, w4) = setTimeout (SingleClickFire ev) currentTime (delay cfg) w3
              in w4\<lparr>singleClickTimer := Some i\<rparr>)
           else if clickCount w3 = 2 then
             invoke (onDoubleClick cfg) DoubleClick ev (resetState False) (clearAllTimers w3)
           else w3)"

definition handleTouchCancel :: "world \<Rightarrow> world" where
  "handleTouchCancel w = resetState False (clearAllTimers w)"

definition onUnmounted :: "world \<Rightarrow> world" where
  "onUnmounted w = clearAllTimers w"

subsection \<open>The event loop\<close>

text \<open>
  Everything the classifier can receive: the five DOM events (those that read
  \<^verbatim>\<open>Date.now()\<close> carry the clock value), the exposed \<^verbatim>\<open>reset\<close>, the unmount hook, and the
  runtime running a timer. A timer runs only if it is still in the queue and its time has
  come; it leaves the queue before its closure runs.
\<close>

datatype input =
    TouchStart int raw_event
  | TouchMove
  | TouchEnd int raw_event
  | TouchCancel
  | Click int raw_event
  | Reset bool
  | Unmount
  | TimerFires int timer_id

definition runAction :: "config \<Rightarrow> action \<Rightarrow> world \<Rightarrow> world" where
  "runAction cfg a w =
     (case a of
        LongPressFire ev \<Rightarrow> longPressFired cfg ev w
      | SingleClickFire ev \<Rightarrow> singleClickFired cfg ev w
      | SuppressExpire \<Rightarrow> suppressExpired w)"

definition fireTimer :: "config \<Rightarrow> int \<Rightarrow> timer_id \<Rightarrow> world \<Rightarrow> world" where
  "fireTimer cfg now i w =
     (case find (\<lambda>t. tid t = i) (pending w) of
        None \<Rightarrow> w
      | Some t \<Rightarrow>
          if due t \<le> now then runAction cfg (act t) (clearTimeout i w) else w)"

fun step :: "config \<Rightarrow> world \<Rightarrow> input \<Rightarrow> world" where
  "step cfg w (TouchStart now ev) = handleTouchStart cfg now ev w"
| "step cfg w TouchMove = handleTouchMove w"
| "step cfg w (TouchEnd now ev) = handleTouchEnd cfg now ev w"
| "step cfg w TouchCancel = handleTouchCancel w"
| "step cfg w (Click now ev) = handleClick cfg now ev w"
| "step cfg w (Reset p) = resetState p w"
| "step cfg w Unmount = onUnmounted w"
| "step cfg w (TimerFires now i) = fireTimer cfg now i w"

definition run :: "config \<Rightarrow> world \<Rightarrow> input list \<Rightarrow> world" where
  "run cfg w evs = foldl (step cfg) w evs"


subsection \<open>Auxiliary notions used in the statements\<close>

text \<open>The configuration of the demo page: the default delays, three callbacks that return.\<close>

definition demo_config :: config where
  "demo_config =
     \<lparr>delay = 300, onSingleClick = Some (\<lambda>_. Returned),
      onDoubleClick = Some (\<lambda>_. Returned), onLongPress = Some (\<lambda>_. Returned),
      longPressDelay = 800\<rparr>"

text \<open>The queue after \<^verbatim>\<open>clearTimeout\<close> on the content of a slot.\<close>

fun without :: "timer_id option \<Rightarrow> timer list \<Rightarrow> timer list" where
  "without None ts = ts"
| "without (Some i) ts = filter (\<lambda>t. tid t \<noteq> i) ts"

definition clearedQueue :: "world \<Rightarrow> timer list" where
  "clearedQueue w =
     without (suppressTimer w)
       (without (longPressTimer w) (without (singleClickTimer w) (pending w)))"

text \<open>Two taps on a touch screen, 100 ms apart.\<close>

definition double_tap :: "input list" where
  "double_tap = [TouchStart 1000 (RawEvent 1), TouchEnd 1010 (RawEvent 2),
                 TouchStart 1100 (RawEvent 3), TouchEnd 1110 (RawEvent 4)]"

text \<open>The kinds of timers, told apart by the closure they run.\<close>

fun is_single :: "action \<Rightarrow> bool" where
  "is_single (SingleClickFire ev) = True"
| "is_single a = False"

fun is_long :: "action \<Rightarrow> bool" where
  "is_long (LongPressFire ev) = True"
| "is_long a = False"

fun timer_num :: "timer_id \<Rightarrow> nat" where
  "timer_num (TimerId n) = n"

text \<open>Handles in the queue are pairwise different and older than the next handle.\<close>

definition fresh_queue :: "nat \<Rightarrow> timer list \<Rightarrow> bool" where
  "fresh_queue n ts \<longleftrightarrow> (\<forall>t\<in>set ts. timer_num (tid t) < n) \<and> distinct (map tid ts)"

definition queue_ok :: "world \<Rightarrow> bool" where
  "queue_ok w \<longleftrightarrow> fresh_queue (nextId w) (pending w)"

text \<open>
  Every live single-click timer is the one in the slot, and none is live while
  \<open>clickCount\<close> is 0.
\<close>

definition single_in_slot :: "world \<Rightarrow> bool" where
  "single_in_slot w \<longleftrightarrow>
     (\<forall>t\<in>set (pending w). is_single (act t) \<longrightarrow> singleClickTimer w = Some (tid t)) \<and>
     (clickCount w = 0 \<longrightarrow> (\<forall>t\<in>set (pending w). \<not> is_single (act t)))"

text \<open>A configuration whose \<open>onDoubleClick\<close> raises.\<close>

definition raising_config :: config where
  "raising_config =
     \<lparr>delay = 300, onSingleClick = Some (\<lambda>_. Returned),
      onDoubleClick = Some (\<lambda>_. Raised), onLongPress = Some (\<lambda>_. Returned),
      longPressDelay = 800\<rparr>"

text \<open>
  What holds of the refs at the instant a callback is called: \<open>clickCount\<close> is 1 for
  \<open>onSingleClick\<close> and 2 for \<open>onDoubleClick\<close>, whose single-click and long-press slots have
  been emptied; for \<open>onLongPress\<close> the flag is set and the three slots are empty.
\<close>

definition site_ok :: "call \<Rightarrow> bool" where
  "site_ok c =
     (case cb_gesture c of
        SingleClick \<Rightarrow> clickCount (cb_session c) = 1
      | DoubleClick \<Rightarrow>
          clickCount (cb_session c) = 2 \<and> singleClickTimer (cb_session c) = None \<and>
          longPressTimer (cb_session c) = None
      | LongPress \<Rightarrow>
          isLongPress (cb_session c) \<and> singleClickTimer (cb_session c) = None \<and>
          longPressTimer (cb_session c) = None \<and> suppressTimer (cb_session c) = None)"

text \<open>
  What holds after the handler that made the call: a callback that raised leaves the refs
  and the queue as they stood when it was called; after a click callback that returned, the
  counters are reset.
\<close>

definition counters_reset :: "world \<Rightarrow> bool" where
  "counters_reset w \<longleftrightarrow>
     clickCount w = 0 \<and> \<not> isLongPress w \<and> touchStartTime w = 0 \<and> lastClickTime w = 0"

definition after_call :: "world \<Rightarrow> call \<Rightarrow> bool" where
  "after_call w c =
     (case cb_outcome c of
        Raised \<Rightarrow> session_of w = cb_session c \<and> pending w = cb_pending c
      | Returned \<Rightarrow> cb_gesture c = LongPress \<or> counters_reset w)"

text \<open>
  What holds of a call by the handler that makes it, run in \<open>w\<close>. A touch-end calls
  \<open>onDoubleClick\<close> only, with the suppression window set and the suppression timer it has
  just armed in its slot and in the queue; a click calls \<open>onDoubleClick\<close> only, with the
  suppression slot empty as well; a timer never calls \<open>onDoubleClick\<close>; no other event
  makes a call.
\<close>

fun site_at :: "world \<Rightarrow> input \<Rightarrow> call \<Rightarrow> bool" where
  "site_at w (TouchEnd t ev) c =
     (cb_gesture c = DoubleClick \<and> cb_event c = ev \<and>
      suppressClickUntil (cb_session c) = t + 100 \<and>
      suppressTimer (cb_session c) = Some (TimerId (nextId w)) \<and>
      \<lparr>tid = TimerId (nextId w), due = t + 100, act = SuppressExpire\<rparr> \<in> set (cb_pending c))"
| "site_at w (Click t ev) c =
     (cb_gesture c = DoubleClick \<and> cb_event c = ev \<and> suppressTimer (cb_session c) = None)"
| "site_at w (TimerFires now i) c = (cb_gesture c \<noteq> DoubleClick)"
| "site_at w e c = False"

text \<open>A handler makes at most one call.\<close>

definition one_call :: "world \<Rightarrow> input \<Rightarrow> world \<Rightarrow> bool" where
  "one_call w e w' \<longleftrightarrow>
     calls w' = calls w \<or>
     (\<exists>c. calls w' = calls w @ [c] \<and> site_ok c \<and> site_at w e c \<and> after_call w' c)"

text \<open>
  The events that can follow within a touch before the next touch-start, clicks left
  aside; the clock of a touch-end is \<^verbatim>\<open>Date.now()\<close>, far beyond \<open>longPressDelay\<close>.
\<close>

fun touch_tail :: "config \<Rightarrow> input \<Rightarrow> bool" where
  "touch_tail cfg (TouchStart now ev) = False"
| "touch_tail cfg (Click now ev) = False"
| "touch_tail cfg (TouchEnd now ev) = (longPressDelay cfg \<le> now)"
| "touch_tail cfg e = True"

text \<open>The click callbacks made so far.\<close>

definition click_calls :: "world \<Rightarrow> call list" where
  "click_calls w = filter (\<lambda>c. cb_gesture c \<noteq> LongPress) (calls w)"

text \<open>
  The state a fired long press leaves: no single-click timer is live, and the flag is set
  (or the session has been reset since).
\<close>

definition after_long_press :: "world \<Rightarrow> bool" where
  "after_long_press w \<longleftrightarrow>
     (\<forall>t\<in>set (pending w). \<not> is_single (act t)) \<and> (isLongPress w \<or> touchStartTime w = 0)"

section \<open>Basic facts\<close>

lemma run_Nil: "run cfg w [] = w"
  by (simp add: run_def)

lemma run_Cons: "run cfg w (e # es) = run cfg (step cfg w e) es"
  by (simp add: run_def)

lemma run_snoc: "run cfg w (es @ [e]) = step cfg (run cfg w es) e"
  by (simp add: run_def)

lemma cancelSingleClickTimer_eq:
  "cancelSingleClickTimer w =
     w\<lparr>singleClickTimer := None, pending := without (singleClickTimer w) (pending w)\<rparr>"
  by (cases "singleClickTimer w") (simp_all add: cancelSingleClickTimer_def clearTimeout_def)

lemma cancelLongPressTimer_eq:
  "cancelLongPressTimer w =
     w\<lparr>longPressTimer := None, pending := without (longPressTimer w) (pending w)\<rparr>"
  by (cases "longPressTimer w") (simp_all add: cancelLongPressTimer_def clearTimeout_def)

lemma cancelSuppressTimer_eq:
  "cancelSuppressTimer w =
     w\<lparr>suppressTimer := None, pending := without (suppressTimer w) (pending w)\<rparr>"
  by (cases "suppressTimer w") (simp_all add: cancelSuppressTimer_def clearTimeout_def)

lemma clearAllTimers_eq:
  "clearAllTimers w =
     w\<lparr>singleClickTimer := None, longPressTimer := None, suppressTimer := None,
       pending := clearedQueue w\<rparr>"
  by (simp add: clearAllTimers_def clearedQueue_def cancelSingleClickTimer_eq
      cancelLongPressTimer_eq cancelSuppressTimer_eq)

lemma resetState_eq:
  "resetState p w =
     w\<lparr>clickCount := 0, isLongPress := False, touchStartTime := 0, lastClickTime := 0,
       isDoubleClickProcessed := False,
       suppressClickUntil := (if p then suppressClickUntil w else 0),
       singleClickTimer := None, longPressTimer := None, suppressTimer := None,
       pending := clearedQueue w\<rparr>"
  by (simp add: resetState_def clearAllTimers_eq clearedQueue_def Let_def)

lemmas prim_eqs = cancelSingleClickTimer_eq cancelLongPressTimer_eq cancelSuppressTimer_eq
  clearAllTimers_eq resetState_eq

lemma set_without: "set (without s ts) = {t \<in> set ts. s \<noteq> Some (tid t)}"
  by (cases s) auto

lemma set_clearedQueue:
  "set (clearedQueue w) =
     {t \<in> set (pending w). singleClickTimer w \<noteq> Some (tid t) \<and>
        longPressTimer w \<noteq> Some (tid t) \<and> suppressTimer w \<noteq> Some (tid t)}"
  by (auto simp: clearedQueue_def set_without)

lemma fresh_filter: "fresh_queue n ts \<Longrightarrow> fresh_queue n (filter P ts)"
  by (auto simp: fresh_queue_def distinct_map_filter)

lemma fresh_without: "fresh_queue n ts \<Longrightarrow> fresh_queue n (without s ts)"
  by (cases s) (simp_all add: fresh_filter)

lemma fresh_snoc:
  "fresh_queue n ts \<Longrightarrow> fresh_queue (Suc n) (ts @ [\<lparr>tid = TimerId n, due = d, act = a\<rparr>])"
proof -
  assume a: "fresh_queue n ts"
  have "tid t \<noteq> TimerId n" if "t \<in> set ts" for t
  proof
    assume "tid t = TimerId n"
    then have "timer_num (tid t) = n" by simp
    with a that show False by (auto simp: fresh_queue_def)
  qed
  then have "TimerId n \<notin> tid ` set ts" by force
  with a show ?thesis by (auto simp: fresh_queue_def less_SucI)
qed

lemma fresh_Suc: "fresh_queue n ts \<Longrightarrow> fresh_queue (Suc n) ts"
  by (auto simp: fresh_queue_def less_SucI)

lemmas fresh_intros = fresh_filter fresh_without fresh_snoc

lemma find_tid: "find (\<lambda>t. tid t = i) ts = Some t \<Longrightarrow> t \<in> set ts \<and> tid t = i"
  by (induction ts) (auto split: if_splits)

lemma run_append: "run cfg w (es @ fs) = run cfg (run cfg w es) fs"
  by (simp add: run_def)

lemma fireTimer_idle: "pending w = [] \<Longrightarrow> fireTimer cfg now i w = w"
  by (simp add: fireTimer_def)

lemma only_fires_idle:
  "pending w = [] \<Longrightarrow> run cfg w (map (\<lambda>(now, i). TimerFires now i) fs) = w"
  by (induction fs) (auto simp: run_Nil run_Cons fireTimer_idle)

lemma double_tap_world:
  "run demo_config init_world double_tap =
     init_world\<lparr>suppressClickUntil := 1210, nextId := 5,
       calls := [\<lparr>cb_gesture = DoubleClick, cb_event = RawEvent 4, cb_outcome = Returned,
                  cb_session = \<lparr>clickCount = 2, isLongPress = False, touchStartTime = 1100,
                    singleClickTimer = None, longPressTimer = None, lastClickTime = 1110,
                    isDoubleClickProcessed = True, suppressClickUntil = 1210,
                    suppressTimer = Some (TimerId 4)\<rparr>,
                  cb_pending = [\<lparr>tid = TimerId 4, due = 1210, act = SuppressExpire\<rparr>]\<rparr>]\<rparr>"
  by (simp add: double_tap_def run_def demo_config_def init_world_def handleTouchStart_def
      handleTouchEnd_def setTimeout_def clearTimeout_def cancelSingleClickTimer_def
      cancelLongPressTimer_def cancelSuppressTimer_def clearAllTimers_def resetState_def
      invoke_def session_of_def Let_def)

lemma second_touch_down_world:
  "run demo_config init_world
     [TouchStart 1000 (RawEvent 1), TouchEnd 1010 (RawEvent 2), TouchStart 1100 (RawEvent 3)] =
   init_world\<lparr>clickCount := 1, touchStartTime := 1100, singleClickTimer := Some (TimerId 2),
     longPressTimer := Some (TimerId 3), lastClickTime := 1010,
     pending := [\<lparr>tid = TimerId 2, due = 1310, act = SingleClickFire (RawEvent 2)\<rparr>,
                 \<lparr>tid = TimerId 3, due = 1900, act = LongPressFire (RawEvent 3)\<rparr>],
     nextId := 4\<rparr>"
  by (simp add: run_def demo_config_def init_world_def handleTouchStart_def
      handleTouchEnd_def setTimeout_def clearTimeout_def cancelLongPressTimer_def Let_def)

section \<open>The suppression window (C1, C5)\<close>

text \<open>
  C1. The claim: after a double click on the touch path the suppression-expiry timer fires
  once 100 ms have passed and puts \<open>suppressClickUntil\<close> back to 0, so the field is never
  left nonzero after the window. The code arms that timer and then calls
  \<^verbatim>\<open>resetState(true)\<close>, whose \<^verbatim>\<open>clearAllTimers()\<close> cancels it again: after two taps the
  queue is empty, the slot is \<^verbatim>\<open>null\<close>, and whichever timers the runtime tries to run
  afterwards, \<open>suppressClickUntil\<close> stays at 1210.
\<close>

theorem suppression_left_dangling:
  "pending (run demo_config init_world double_tap) = [] \<and>
   suppressTimer (run demo_config init_world double_tap) = None \<and>
   (\<forall>fs. suppressClickUntil
           (run demo_config (run demo_config init_world double_tap)
              (map (\<lambda>(now, i). TimerFires now i) fs)) = 1210)"
proof -
  have p: "pending (run demo_config init_world double_tap) = []"
    unfolding double_tap_world by (simp add: init_world_def)
  have q: "suppressTimer (run demo_config init_world double_tap) = None"
    unfolding double_tap_world by (simp add: init_world_def)
  have r: "suppressClickUntil (run demo_config init_world double_tap) = 1210"
    unfolding double_tap_world by simp
  show ?thesis
    using p q r by (simp add: only_fires_idle)
qed

text \<open>
  C5. After a touch-end that is accepted as the second tap (\<open>clickCount\<close> was 1, the event
  passes the debounce and the hold guard, and \<open>onDoubleClick\<close> is absent or returns) at a
  clock value \<open>t \<ge> 0\<close>: a click at \<open>c < t + 100\<close> leaves the whole world unchanged (no
  callback, no increment); a click at \<open>c \<ge> t + 100\<close> makes \<open>clickCount\<close> 1 and arms one
  single-click timer, due \<open>delay\<close> ms later, and calls nothing.
\<close>

theorem click_after_touch_double_click:
  assumes "clickCount w = 1" and "50 \<le> t - lastClickTime w" and "\<not> isLongPress w"
    and "t - touchStartTime w < longPressDelay cfg"
    and "case onDoubleClick cfg of None \<Rightarrow> True | Some f \<Rightarrow> f ev = Returned"
    and "0 \<le> t"
  shows "clickCount (handleTouchEnd cfg t ev w) = 0 \<and>
         suppressClickUntil (handleTouchEnd cfg t ev w) = t + 100 \<and>
         (c < t + 100 \<longrightarrow>
            handleClick cfg c ev' (handleTouchEnd cfg t ev w) = handleTouchEnd cfg t ev w) \<and>
         (t + 100 \<le> c \<longrightarrow>
            clickCount (handleClick cfg c ev' (handleTouchEnd cfg t ev w)) = 1 \<and>
            singleClickTimer (handleClick cfg c ev' (handleTouchEnd cfg t ev w)) =
              Some (TimerId (nextId (handleTouchEnd cfg t ev w))) \<and>
            pending (handleClick cfg c ev' (handleTouchEnd cfg t ev w)) =
              pending (handleTouchEnd cfg t ev w) @
                [\<lparr>tid = TimerId (nextId (handleTouchEnd cfg t ev w)),
                  due = c + max 0 (delay cfg), act = SingleClickFire ev'\<rparr>] \<and>
            calls (handleClick cfg c ev' (handleTouchEnd cfg t ev w)) =
              calls (handleTouchEnd cfg t ev w))"
proof -
  define w' where "w' = handleTouchEnd cfg t ev w"
  have s: "clickCount w' = 0" "suppressClickUntil w' = t + 100" "lastClickTime w' = 0"
    "longPressTimer w' = None"
    using assms unfolding w'_def
    by (cases "onDoubleClick cfg"; simp add: handleTouchEnd_def prim_eqs setTimeout_def
        invoke_def Let_def)+
  have early: "handleClick cfg c ev' w' = w'" if "c < t + 100"
    using that s by (simp add: handleClick_def)
  have late: "clickCount (handleClick cfg c ev' w') = 1 \<and>
      singleClickTimer (handleClick cfg c ev' w') = Some (TimerId (nextId w')) \<and>
      pending (handleClick cfg c ev' w') =
        pending w' @ [\<lparr>tid = TimerId (nextId w'), due = c + max 0 (delay cfg),
                        act = SingleClickFire ev'\<rparr>] \<and>
      calls (handleClick cfg c ev' w') = calls w'" if "t + 100 \<le> c"
    using that s assms(6)
    by (simp add: handleClick_def prim_eqs setTimeout_def Let_def)
  from s early late show ?thesis unfolding w'_def by blast
qed

theorem click_after_touch_double_click_witness:
  "handleClick demo_config 1150 (RawEvent 5) (run demo_config init_world double_tap) =
     run demo_config init_world double_tap \<and>
   clickCount (handleClick demo_config 1250 (RawEvent 5) (run demo_config init_world double_tap)) = 1"
proof -
  define w where "w = run demo_config init_world
     [TouchStart 1000 (RawEvent 1), TouchEnd 1010 (RawEvent 2), TouchStart 1100 (RawEvent 3)]"
  have e: "run demo_config init_world double_tap = handleTouchEnd demo_config 1110 (RawEvent 4) w"
    by (simp add: w_def double_tap_def run_def)
  have h: "clickCount w = 1" "50 \<le> 1110 - lastClickTime w" "\<not> isLongPress w"
    "1110 - touchStartTime w < longPressDelay demo_config"
    "case onDoubleClick demo_config of None \<Rightarrow> True | Some f \<Rightarrow> f (RawEvent 4) = Returned"
    "(0::int) \<le> 1110"
    unfolding w_def second_touch_down_world by (simp_all add: init_world_def demo_config_def)
  from click_after_touch_double_click [OF h, of 1150 "RawEvent 5"]
       click_after_touch_double_click [OF h, of 1250 "RawEvent 5"]
  show ?thesis unfolding e by simp
qed

section \<open>Touch-move (C8)\<close>

text \<open>
  C8. \<open>handleTouchMove\<close> empties the long-press slot and takes that slot's timer out of the
  queue; every other ref, the rest of the queue (the single-click and suppression timers),
  the handle counter and the record of callbacks stay as they are.
\<close>

theorem handleTouchMove_frame:
  "session_of (handleTouchMove w) = (session_of w)\<lparr>longPressTimer := None\<rparr> \<and>
   pending (handleTouchMove w) = without (longPressTimer w) (pending w) \<and>
   nextId (handleTouchMove w) = nextId w \<and> calls (handleTouchMove w) = calls w"
  by (simp add: handleTouchMove_def cancelLongPressTimer_eq session_of_def)

section \<open>The debounce window (C9)\<close>

text \<open>
  C9. Every reset (\<open>resetState\<close>, with either argument, from any state) puts
  \<open>lastClickTime\<close> to 0. Hence the next click (outside a preserved suppression window) or the
  next tap is accepted whatever the time of the last accepted event was: \<open>clickCount\<close>
  becomes 1 and \<open>lastClickTime\<close> the new clock value. The clock is \<^verbatim>\<open>Date.now()\<close>,
  milliseconds since 1970, so it is at least 50.
\<close>

theorem reset_clears_debounce:
  "lastClickTime (resetState p w) = 0 \<and>
   (50 \<le> now \<and> (p \<longrightarrow> suppressClickUntil w \<le> now) \<longrightarrow>
      clickCount (handleClick cfg now ev (resetState p w)) = 1 \<and>
      lastClickTime (handleClick cfg now ev (resetState p w)) = now) \<and>
   (50 \<le> now \<and> now - s < longPressDelay cfg \<longrightarrow>
      clickCount (handleTouchEnd cfg now ev (handleTouchStart cfg s ev0 (resetState p w))) = 1 \<and>
      lastClickTime (handleTouchEnd cfg now ev (handleTouchStart cfg s ev0 (resetState p w)))
        = now)"
proof -
  have a: "lastClickTime (resetState p w) = 0"
    by (simp add: resetState_eq)
  have b: "clickCount (handleClick cfg now ev (resetState p w)) = 1 \<and>
      lastClickTime (handleClick cfg now ev (resetState p w)) = now"
    if "50 \<le> now" "p \<longrightarrow> suppressClickUntil w \<le> now"
    using that by (auto simp: handleClick_def prim_eqs setTimeout_def Let_def)
  have c: "clickCount (handleTouchEnd cfg now ev (handleTouchStart cfg s ev0 (resetState p w)))
        = 1 \<and>
      lastClickTime (handleTouchEnd cfg now ev (handleTouchStart cfg s ev0 (resetState p w)))
        = now"
    if "50 \<le> now" "now - s < longPressDelay cfg"
    using that
    by (cases "onLongPress cfg")
       (simp_all add: handleTouchEnd_def handleTouchStart_def prim_eqs setTimeout_def Let_def)
  from a b c show ?thesis by blast
qed

theorem reset_clears_debounce_witness:
  "clickCount (handleClick demo_config 1120 (RawEvent 3)
     (resetState False (handleClick demo_config 1100 (RawEvent 1) init_world))) = 1 \<and>
   clickCount (handleTouchEnd demo_config 1120 (RawEvent 3)
     (handleTouchStart demo_config 1110 (RawEvent 2)
       (resetState False (handleClick demo_config 1100 (RawEvent 1) init_world)))) = 1"
  using reset_clears_debounce [where p = False
      and w = "handleClick demo_config 1100 (RawEvent 1) init_world" and now = 1120
      and cfg = demo_config and ev = "RawEvent 3" and s = 1110 and ?ev0.0 = "RawEvent 2"]
  by (simp add: demo_config_def)

section \<open>Outstanding timers (C4)\<close>

subsection \<open>Invariants of the timer queue\<close>

lemma queue_ok_step:
  assumes "queue_ok w"
  shows "queue_ok (step cfg w e)"
proof -
  have f: "fresh_queue (nextId w) (pending w)"
    using assms by (simp add: queue_ok_def)
  show ?thesis
  proof (cases e)
    case (TouchStart now ev)
    then show ?thesis using f
      by (cases "onLongPress cfg")
         (auto simp: queue_ok_def handleTouchStart_def setTimeout_def Let_def
            intro!: fresh_intros intro: fresh_Suc)
  next
    case TouchMove
    then show ?thesis using f
      by (auto simp: queue_ok_def handleTouchMove_def cancelLongPressTimer_eq
          intro!: fresh_intros intro: fresh_Suc)
  next
    case (TouchEnd now ev)
    then show ?thesis using f
      by (cases "onDoubleClick cfg")
         (auto simp: queue_ok_def handleTouchEnd_def prim_eqs clearedQueue_def
            setTimeout_def invoke_def Let_def split: outcome.splits intro!: fresh_intros intro: fresh_Suc)
  next
    case TouchCancel
    then show ?thesis using f
      by (auto simp: queue_ok_def handleTouchCancel_def prim_eqs clearedQueue_def
          intro!: fresh_intros intro: fresh_Suc)
  next
    case (Click now ev)
    then show ?thesis using f
      by (cases "onDoubleClick cfg")
         (auto simp: queue_ok_def handleClick_def prim_eqs clearedQueue_def
            setTimeout_def invoke_def Let_def split: outcome.splits intro!: fresh_intros intro: fresh_Suc)
  next
    case (Reset p)
    then show ?thesis using f
      by (auto simp: queue_ok_def prim_eqs clearedQueue_def intro!: fresh_intros intro: fresh_Suc)
  next
    case Unmount
    then show ?thesis using f
      by (auto simp: queue_ok_def onUnmounted_def prim_eqs clearedQueue_def
          intro!: fresh_intros intro: fresh_Suc)
  next
    case (TimerFires now i)
    then show ?thesis using f
      by (cases "onSingleClick cfg"; cases "onLongPress cfg")
         (auto simp: queue_ok_def fireTimer_def runAction_def longPressFired_def
            singleClickFired_def suppressExpired_def clearTimeout_def prim_eqs
            clearedQueue_def invoke_def Let_def
            split: option.splits action.splits outcome.splits intro!: fresh_intros intro: fresh_Suc)
  qed
qed

lemma single_in_slot_step:
  assumes "single_in_slot w"
  shows "single_in_slot (step cfg w e)"
proof (cases e)
  case (TouchStart now ev)
  then show ?thesis using assms
    by (cases "onLongPress cfg")
       (auto simp: single_in_slot_def handleTouchStart_def setTimeout_def Let_def)
next
  case TouchMove
  then show ?thesis using assms
    by (auto simp: single_in_slot_def handleTouchMove_def cancelLongPressTimer_eq set_without)
next
  case (TouchEnd now ev)
  then show ?thesis using assms
    by (cases "onDoubleClick cfg")
       (auto simp: single_in_slot_def handleTouchEnd_def prim_eqs clearedQueue_def
          set_without setTimeout_def invoke_def Let_def split: outcome.splits)
next
  case TouchCancel
  then show ?thesis using assms
    by (auto simp: single_in_slot_def handleTouchCancel_def prim_eqs clearedQueue_def
        set_without)
next
  case (Click now ev)
  then show ?thesis using assms
    by (cases "onDoubleClick cfg")
       (auto simp: single_in_slot_def handleClick_def prim_eqs clearedQueue_def
          set_without setTimeout_def invoke_def Let_def split: outcome.splits)
next
  case (Reset p)
  then show ?thesis using assms
    by (auto simp: single_in_slot_def prim_eqs clearedQueue_def set_without)
next
  case Unmount
  then show ?thesis using assms
    by (auto simp: single_in_slot_def onUnmounted_def prim_eqs clearedQueue_def set_without)
next
  case (TimerFires now i)
  then show ?thesis using assms
    by (cases "onSingleClick cfg"; cases "onLongPress cfg")
       (auto simp: single_in_slot_def fireTimer_def runAction_def longPressFired_def
          singleClickFired_def suppressExpired_def clearTimeout_def prim_eqs
          clearedQueue_def set_without invoke_def Let_def
          split: option.splits action.splits outcome.splits)
qed


lemma queue_ok_run: "queue_ok w \<Longrightarrow> queue_ok (run cfg w evs)"
  by (induction evs arbitrary: w) (simp_all add: run_Nil run_Cons queue_ok_step)

lemma single_in_slot_run: "single_in_slot w \<Longrightarrow> single_in_slot (run cfg w evs)"
  by (induction evs arbitrary: w) (simp_all add: run_Nil run_Cons single_in_slot_step)

lemma init_world_invs: "queue_ok init_world" "single_in_slot init_world"
  by (simp_all add: queue_ok_def fresh_queue_def single_in_slot_def init_world_def)

lemma at_most_one_with_key:
  "distinct (map f xs) \<Longrightarrow> \<forall>x\<in>set xs. P x \<longrightarrow> f x = k \<Longrightarrow> length (filter P xs) \<le> 1"
proof (induction xs)
  case Nil
  then show ?case by simp
next
  case (Cons x xs)
  show ?case
  proof (cases "P x")
    case True
    with Cons.prems have "f x = k" by simp
    have "\<not> P y" if "y \<in> set xs" for y
    proof
      assume "P y"
      with Cons.prems(2) that have "f y = k" by simp
      with \<open>f x = k\<close> that have "f x \<in> f ` set xs" by (metis imageI)
      with Cons.prems(1) show False by simp
    qed
    then have "\<forall>y\<in>set xs. \<not> P y" by blast
    then have "filter P xs = []" by (simp add: filter_empty_conv)
    with True show ?thesis by simp
  next
    case False
    with Cons show ?thesis by simp
  qed
qed

lemma at_most_one_single:
  assumes "queue_ok w" and "single_in_slot w"
  shows "length (filter (\<lambda>t. is_single (act t)) (pending w)) \<le> 1"
proof (cases "singleClickTimer w")
  case None
  with assms(2) have "filter (\<lambda>t. is_single (act t)) (pending w) = []"
    by (auto simp: single_in_slot_def filter_empty_conv)
  then show ?thesis by simp
next
  case (Some k)
  with assms show ?thesis
    by (intro at_most_one_with_key [where f = tid and k = k])
       (auto simp: queue_ok_def fresh_queue_def single_in_slot_def)
qed

lemma single_click_timer_unique:
  "length (filter (\<lambda>t. is_single (act t)) (pending (run cfg init_world evs))) \<le> 1"
  using at_most_one_single [OF queue_ok_run single_in_slot_run, OF init_world_invs]
  by blast

text \<open>
  C4. The claim: at most one single-click timer and at most one long-press timer are
  outstanding, every arming being preceded by the cancellation of the prior timer of that
  kind, also in \<open>handleTouchStart\<close>. For the single-click timer the bound holds
  (\<open>single_click_timer_unique\<close>). \<open>handleTouchStart\<close>, however, stores the new handle
  over the long-press slot without \<^verbatim>\<open>clearTimeout\<close>: after two touch-starts two
  long-press timers are live. The slot was the only reference to the first: touch-move,
  touch-cancel, reset and unmount leave it in the queue, and when it fires after all of
  them \<open>onLongPress\<close> is called.
\<close>

theorem long_press_timer_orphaned:
  "length (filter (\<lambda>t. is_long (act t))
     (pending (run demo_config init_world
        [TouchStart 1000 (RawEvent 1), TouchStart 1100 (RawEvent 2)]))) = 2 \<and>
   pending (run demo_config init_world
      [TouchStart 1000 (RawEvent 1), TouchStart 1100 (RawEvent 2), TouchMove, TouchCancel,
       Reset False, Unmount]) =
     [\<lparr>tid = TimerId 1, due = 1800, act = LongPressFire (RawEvent 1)\<rparr>] \<and>
   map cb_gesture (calls (run demo_config init_world
      [TouchStart 1000 (RawEvent 1), TouchStart 1100 (RawEvent 2), TouchMove, TouchCancel,
       Reset False, Unmount, TimerFires 1800 (TimerId 1)])) = [LongPress]"
  by (simp add: run_def demo_config_def init_world_def handleTouchStart_def
      handleTouchMove_def handleTouchCancel_def onUnmounted_def fireTimer_def runAction_def
      longPressFired_def setTimeout_def clearTimeout_def prim_eqs clearedQueue_def
      invoke_def session_of_def Let_def)

section \<open>One tap (C6)\<close>

text \<open>
  C6. From the initial state, a touch-start at \<open>t0\<close> and a touch-end at \<open>t1\<close> with
  \<open>t1 - t0 < longPressDelay\<close> (the clock being \<^verbatim>\<open>Date.now()\<close>, \<open>t1 \<ge> 50\<close>) and a
  configured \<open>onSingleClick\<close>: \<open>clickCount\<close> is 1 right after the touch-end, nothing has
  been called, and the only live timer is the single-click timer, due at \<open>t1 + delay\<close>. The
  runtime cannot run it earlier; when it runs, \<open>onSingleClick\<close> is called exactly once, with
  the touch-end event, the queue is empty, and once the callback has returned the session is
  in its initial state.
\<close>

theorem single_tap_fires_single_click:
  assumes "50 \<le> t1" and "t1 - t0 < longPressDelay cfg" and "onSingleClick cfg = Some f"
  shows "let w1 = run cfg init_world [TouchStart t0 e0, TouchEnd t1 e1] in
         clickCount w1 = 1 \<and> calls w1 = [] \<and>
         (\<exists>k. singleClickTimer w1 = Some k \<and>
              pending w1 = [\<lparr>tid = k, due = t1 + max 0 (delay cfg), act = SingleClickFire e1\<rparr>] \<and>
              (\<forall>tf. tf < t1 + max 0 (delay cfg) \<longrightarrow> step cfg w1 (TimerFires tf k) = w1) \<and>
              (\<forall>tf. t1 + max 0 (delay cfg) \<le> tf \<longrightarrow>
                 map (\<lambda>c. (cb_gesture c, cb_event c)) (calls (step cfg w1 (TimerFires tf k)))
                   = [(SingleClick, e1)] \<and>
                 pending (step cfg w1 (TimerFires tf k)) = [] \<and>
                 (f e1 = Returned \<longrightarrow>
                    session_of (step cfg w1 (TimerFires tf k)) = init_session)))"
proof (cases "onLongPress cfg")
  case None
  have w1: "run cfg init_world [TouchStart t0 e0, TouchEnd t1 e1] =
    init_world\<lparr>clickCount := 1, touchStartTime := t0, lastClickTime := t1,
      singleClickTimer := Some (TimerId 1),
      pending := [\<lparr>tid = TimerId 1, due = t1 + max 0 (delay cfg), act = SingleClickFire e1\<rparr>],
      nextId := 2\<rparr>"
    using assms None
    by (simp add: run_def init_world_def handleTouchStart_def handleTouchEnd_def
        cancelLongPressTimer_eq setTimeout_def Let_def)
  show ?thesis
    unfolding w1 Let_def using assms
    by (cases "f e1")
       (simp_all add: init_world_def fireTimer_def runAction_def singleClickFired_def
          invoke_def clearTimeout_def resetState_eq clearedQueue_def session_of_def
          init_session_def)
next
  case (Some g)
  have w1: "run cfg init_world [TouchStart t0 e0, TouchEnd t1 e1] =
    init_world\<lparr>clickCount := 1, touchStartTime := t0, lastClickTime := t1,
      singleClickTimer := Some (TimerId 2),
      pending := [\<lparr>tid = TimerId 2, due = t1 + max 0 (delay cfg), act = SingleClickFire e1\<rparr>],
      nextId := 3\<rparr>"
    using assms Some
    by (simp add: run_def init_world_def handleTouchStart_def handleTouchEnd_def
        cancelLongPressTimer_eq setTimeout_def Let_def)
  show ?thesis
    unfolding w1 Let_def using assms
    by (cases "f e1")
       (simp_all add: init_world_def fireTimer_def runAction_def singleClickFired_def
          invoke_def clearTimeout_def resetState_eq clearedQueue_def session_of_def
          init_session_def)
qed

theorem single_tap_fires_single_click_witness:
  "clickCount (run demo_config init_world
      [TouchStart 1000 (RawEvent 1), TouchEnd 1050 (RawEvent 2)]) = 1 \<and>
   map (\<lambda>c. (cb_gesture c, cb_event c))
     (calls (step demo_config
        (run demo_config init_world [TouchStart 1000 (RawEvent 1), TouchEnd 1050 (RawEvent 2)])
        (TimerFires 1350 (TimerId 2)))) = [(SingleClick, RawEvent 2)] \<and>
   session_of (step demo_config
        (run demo_config init_world [TouchStart 1000 (RawEvent 1), TouchEnd 1050 (RawEvent 2)])
        (TimerFires 1350 (TimerId 2))) = init_session"
proof -
  define w1 where
    "w1 = run demo_config init_world [TouchStart 1000 (RawEvent 1), TouchEnd 1050 (RawEvent 2)]"
  have h: "(50::int) \<le> 1050" "1050 - 1000 < longPressDelay demo_config"
    "onSingleClick demo_config = Some (\<lambda>_. Returned)"
    by (simp_all add: demo_config_def)
  have slot: "singleClickTimer w1 = Some (TimerId 2)"
    unfolding w1_def
    by (simp add: run_def demo_config_def init_world_def handleTouchStart_def
        handleTouchEnd_def setTimeout_def clearTimeout_def cancelLongPressTimer_def Let_def)
  have d: "delay demo_config = 300"
    by (simp add: demo_config_def)
  from single_tap_fires_single_click [OF h, of "RawEvent 1" "RawEvent 2"] slot d
  show ?thesis
    unfolding w1_def [symmetric] Let_def by auto
qed

section \<open>Debounce within an episode (C7)\<close>

text \<open>
  C7, as stated, fails: the reset at the end of an episode puts \<open>lastClickTime\<close> back to 0,
  so an event less than 50 ms after the second click of a double click is accepted. Three
  clicks at 1000, 1100 and 1120: the third, 20 ms after the second, makes \<open>clickCount\<close> 1
  and \<open>lastClickTime\<close> 1120.
\<close>

theorem debounce_lost_after_double_click:
  "clickCount (run demo_config init_world [Click 1000 (RawEvent 1), Click 1100 (RawEvent 2)]) = 0 \<and>
   clickCount (run demo_config init_world
      [Click 1000 (RawEvent 1), Click 1100 (RawEvent 2), Click 1120 (RawEvent 3)]) = 1 \<and>
   lastClickTime (run demo_config init_world
      [Click 1000 (RawEvent 1), Click 1100 (RawEvent 2), Click 1120 (RawEvent 3)]) = 1120"
  by (simp add: run_def demo_config_def init_world_def handleClick_def setTimeout_def
      prim_eqs clearedQueue_def invoke_def session_of_def Let_def)

text \<open>
  C7, amended. When the first event of the pair is accepted as the first tap of an episode
  (\<open>clickCount\<close> goes from 0 to 1), a touch-end or click less than 50 ms later is discarded
  and leaves the whole world as it was: \<open>clickCount\<close> has been incremented once, and
  \<open>lastClickTime\<close> is the time of the accepted event.
\<close>

theorem debounce_within_episode:
  assumes "clickCount w = 0" and "50 \<le> t - lastClickTime w"
    and "a = Click t ev \<and> suppressClickUntil w \<le> t \<or>
         a = TouchEnd t ev \<and> \<not> isLongPress w \<and> t - touchStartTime w < longPressDelay cfg"
    and "b = Click t' ev' \<or> b = TouchEnd t' ev'"
    and "t' - t < 50"
  shows "clickCount (step cfg w a) = 1 \<and> lastClickTime (step cfg w a) = t \<and>
         step cfg (step cfg w a) b = step cfg w a"
proof -
  have s: "clickCount (step cfg w a) = 1 \<and> lastClickTime (step cfg w a) = t"
    using assms(1,2,3)
    by (auto simp: handleClick_def handleTouchEnd_def cancelLongPressTimer_eq setTimeout_def
        Let_def)
  then have "step cfg (step cfg w a) b = step cfg w a"
    using assms(4,5) by (auto simp: handleClick_def handleTouchEnd_def)
  with s show ?thesis by simp
qed

theorem debounce_within_episode_witness:
  "clickCount (step demo_config init_world (Click 1000 (RawEvent 1))) = 1 \<and>
   step demo_config (step demo_config init_world (Click 1000 (RawEvent 1)))
     (TouchEnd 1010 (RawEvent 2)) = step demo_config init_world (Click 1000 (RawEvent 1))"
proof -
  have h: "clickCount init_world = 0" "50 \<le> 1000 - lastClickTime init_world"
    "Click 1000 (RawEvent 1) = Click 1000 (RawEvent 1) \<and> suppressClickUntil init_world \<le> 1000 \<or>
     Click 1000 (RawEvent 1) = TouchEnd 1000 (RawEvent 1) \<and> \<not> isLongPress init_world \<and>
       1000 - touchStartTime init_world < longPressDelay demo_config"
    "TouchEnd 1010 (RawEvent 2) = Click 1010 (RawEvent 2) \<or>
     TouchEnd 1010 (RawEvent 2) = TouchEnd 1010 (RawEvent 2)"
    "(1010::int) - 1000 < 50"
    by (simp_all add: init_world_def)
  from debounce_within_episode [OF h] show ?thesis by simp
qed

section \<open>Long holds without a long-press callback (C10)\<close>

lemma step_no_long:
  assumes "onLongPress cfg = None" and "\<forall>t\<in>set (pending w). \<not> is_long (act t)"
  shows "\<forall>t\<in>set (pending (step cfg w e)). \<not> is_long (act t)"
proof (cases e)
  case (TouchStart now ev)
  then show ?thesis using assms by (simp add: handleTouchStart_def)
next
  case TouchMove
  then show ?thesis using assms
    by (simp add: handleTouchMove_def cancelLongPressTimer_eq set_without)
next
  case (TouchEnd now ev)
  then show ?thesis using assms
    by (cases "onDoubleClick cfg")
       (auto simp: handleTouchEnd_def prim_eqs setTimeout_def invoke_def Let_def set_without
          set_clearedQueue split: outcome.splits)
next
  case TouchCancel
  then show ?thesis using assms
    by (auto simp: handleTouchCancel_def prim_eqs set_clearedQueue)
next
  case (Click now ev)
  then show ?thesis using assms
    by (cases "onDoubleClick cfg")
       (auto simp: handleClick_def prim_eqs setTimeout_def invoke_def Let_def set_without
          set_clearedQueue split: outcome.splits)
next
  case (Reset p)
  then show ?thesis using assms by (auto simp: prim_eqs set_clearedQueue)
next
  case Unmount
  then show ?thesis using assms by (auto simp: onUnmounted_def prim_eqs set_clearedQueue)
next
  case (TimerFires now i)
  then show ?thesis using assms
    by (cases "onSingleClick cfg")
       (auto simp: fireTimer_def runAction_def longPressFired_def singleClickFired_def
          suppressExpired_def clearTimeout_def prim_eqs invoke_def Let_def set_clearedQueue
          split: option.splits action.splits outcome.splits)
qed

lemma run_no_long:
  assumes "onLongPress cfg = None"
  shows "\<forall>t\<in>set (pending (run cfg init_world evs)). \<not> is_long (act t)"
proof (induction evs rule: rev_induct)
  case Nil
  then show ?case by (simp add: run_Nil init_world_def)
next
  case (snoc e evs)
  then show ?case using step_no_long [OF assms] by (simp add: run_snoc)
qed

text \<open>
  C10. Without an \<open>onLongPress\<close> callback, \<open>handleTouchStart\<close> arms nothing, and no
  long-press timer is ever live. A touch-end at least \<open>longPressDelay\<close> ms after the
  touch-start calls nothing; when it passes the debounce guard it is taken by the
  hold-duration guard, and the session is back in its initial state.
\<close>

theorem long_hold_without_long_press_callback:
  assumes "onLongPress cfg = None"
  shows "pending (handleTouchStart cfg s ev0 w) = pending w \<and>
         longPressTimer (handleTouchStart cfg s ev0 w) = longPressTimer w \<and>
         (\<forall>t\<in>set (pending (run cfg init_world evs)). \<not> is_long (act t)) \<and>
         (longPressDelay cfg \<le> e - s \<longrightarrow>
            calls (handleTouchEnd cfg e ev (handleTouchStart cfg s ev0 w)) = calls w \<and>
            (50 \<le> e - lastClickTime w \<longrightarrow>
               session_of (handleTouchEnd cfg e ev (handleTouchStart cfg s ev0 w)) = init_session))"
proof -
  have a: "pending (handleTouchStart cfg s ev0 w) = pending w \<and>
         longPressTimer (handleTouchStart cfg s ev0 w) = longPressTimer w"
    using assms by (simp add: handleTouchStart_def)
  have b: "calls (handleTouchEnd cfg e ev (handleTouchStart cfg s ev0 w)) = calls w"
    if "longPressDelay cfg \<le> e - s"
    using assms that by (simp add: handleTouchStart_def handleTouchEnd_def prim_eqs Let_def)
  have c: "session_of (handleTouchEnd cfg e ev (handleTouchStart cfg s ev0 w)) = init_session"
    if "longPressDelay cfg \<le> e - s" "50 \<le> e - lastClickTime w"
    using assms that
    by (simp add: handleTouchStart_def handleTouchEnd_def prim_eqs Let_def session_of_def
        init_session_def)
  from a b c run_no_long [OF assms] show ?thesis by blast
qed

theorem long_hold_without_long_press_callback_witness:
  "calls (handleTouchEnd default_config 2000 (RawEvent 2)
      (handleTouchStart default_config 1000 (RawEvent 1) init_world)) = [] \<and>
   session_of (handleTouchEnd default_config 2000 (RawEvent 2)
      (handleTouchStart default_config 1000 (RawEvent 1) init_world)) = init_session"
proof -
  have h: "onLongPress default_config = None"
    by (simp add: default_config_def)
  have g: "longPressDelay default_config \<le> 2000 - 1000" "50 \<le> 2000 - lastClickTime init_world"
    "calls init_world = []"
    by (simp_all add: default_config_def init_world_def)
  from long_hold_without_long_press_callback [OF h, of 1000 "RawEvent 1" init_world "[]" 2000
      "RawEvent 2"] g
  show ?thesis by simp
qed

section \<open>The state at the instant of a callback (C2)\<close>

lemma one_call_step: "one_call w e (step cfg w e)"
proof (cases e)
  case (TouchStart now ev)
  then show ?thesis
    by (cases "onLongPress cfg")
       (auto simp: one_call_def handleTouchStart_def setTimeout_def Let_def)
next
  case TouchMove
  then show ?thesis
    by (simp add: one_call_def handleTouchMove_def cancelLongPressTimer_eq)
next
  case (TouchEnd now ev)
  show ?thesis
  proof (cases "onDoubleClick cfg")
    case None
    with TouchEnd show ?thesis
      by (simp add: one_call_def handleTouchEnd_def prim_eqs setTimeout_def invoke_def Let_def)
  next
    case (Some f)
    with TouchEnd show ?thesis
      by (cases "f ev")
         (auto simp: one_call_def site_ok_def after_call_def counters_reset_def
            handleTouchEnd_def prim_eqs setTimeout_def invoke_def session_of_def Let_def)
  qed
next
  case TouchCancel
  then show ?thesis
    by (simp add: one_call_def handleTouchCancel_def prim_eqs)
next
  case (Click now ev)
  show ?thesis
  proof (cases "onDoubleClick cfg")
    case None
    with Click show ?thesis
      by (simp add: one_call_def handleClick_def prim_eqs setTimeout_def invoke_def Let_def)
  next
    case (Some f)
    with Click show ?thesis
      by (cases "f ev")
         (auto simp: one_call_def site_ok_def after_call_def counters_reset_def
            handleClick_def prim_eqs setTimeout_def invoke_def session_of_def Let_def)
  qed
next
  case (Reset p)
  then show ?thesis by (simp add: one_call_def prim_eqs)
next
  case Unmount
  then show ?thesis by (simp add: one_call_def onUnmounted_def prim_eqs)
next
  case (TimerFires now i)
  show ?thesis
  proof (cases "find (\<lambda>t. tid t = i) (pending w)")
    case None
    with TimerFires show ?thesis by (simp add: one_call_def fireTimer_def)
  next
    case (Some t)
    show ?thesis
    proof (cases "due t \<le> now")
      case False
      with TimerFires Some show ?thesis by (simp add: one_call_def fireTimer_def)
    next
      case True
      show ?thesis
      proof (cases "act t")
        case (LongPressFire ev)
        with TimerFires Some True show ?thesis
          by (cases "onLongPress cfg")
             (auto simp: one_call_def site_ok_def after_call_def fireTimer_def runAction_def
                longPressFired_def clearTimeout_def prim_eqs invoke_def session_of_def
                Let_def split: outcome.splits)
      next
        case (SingleClickFire ev)
        with TimerFires Some True show ?thesis
          by (cases "onSingleClick cfg")
             (auto simp: one_call_def site_ok_def after_call_def counters_reset_def
                fireTimer_def runAction_def singleClickFired_def clearTimeout_def prim_eqs
                invoke_def session_of_def Let_def split: outcome.splits)
      next
        case SuppressExpire
        with TimerFires Some True show ?thesis
          by (simp add: one_call_def fireTimer_def runAction_def suppressExpired_def
              clearTimeout_def)
      qed
    qed
  qed
qed

lemma calls_run: "\<forall>c\<in>set (calls w). site_ok c \<Longrightarrow> \<forall>c\<in>set (calls (run cfg w evs)). site_ok c"
proof (induction evs arbitrary: w)
  case Nil
  then show ?case by (simp add: run_Nil)
next
  case (Cons e evs)
  have "\<forall>c\<in>set (calls (step cfg w e)). site_ok c"
    using one_call_step [of w e cfg] Cons.prems by (auto simp: one_call_def)
  then show ?case using Cons.IH by (simp add: run_Cons)
qed

text \<open>
  C2, as stated, fails: every call site runs the callback first and \<open>resetState\<close> after
  it. At the call of \<open>onDoubleClick\<close> for clicks at 1000 and 1100, \<open>clickCount\<close> is 2 and
  \<open>lastClickTime\<close> 1100. When \<open>onDoubleClick\<close> raises, the reset never runs: \<open>clickCount\<close>
  stays 2, two more clicks take it to 4, and no further callback is made.
\<close>

theorem callback_sees_unreset_counters:
  "map (\<lambda>c. (cb_gesture c, clickCount (cb_session c), lastClickTime (cb_session c)))
     (calls (run demo_config init_world [Click 1000 (RawEvent 1), Click 1100 (RawEvent 2)]))
     = [(DoubleClick, 2, 1100)] \<and>
   clickCount (run raising_config init_world
     [Click 1000 (RawEvent 1), Click 1100 (RawEvent 2)]) = 2 \<and>
   clickCount (run raising_config init_world
     [Click 1000 (RawEvent 1), Click 1100 (RawEvent 2), Click 2000 (RawEvent 3),
      Click 2100 (RawEvent 4)]) = 4 \<and>
   length (calls (run raising_config init_world
     [Click 1000 (RawEvent 1), Click 1100 (RawEvent 2), Click 2000 (RawEvent 3),
      Click 2100 (RawEvent 4)])) = 1"
  by (simp add: run_def demo_config_def raising_config_def init_world_def handleClick_def
      setTimeout_def prim_eqs clearedQueue_def invoke_def session_of_def Let_def)

text \<open>
  C2, amended. At the instant a callback is called the counters have not been reset:
  \<open>clickCount\<close> is 1 at every \<open>onSingleClick\<close> and 2 at every \<open>onDoubleClick\<close>, and
  \<open>isLongPress\<close> is set at every \<open>onLongPress\<close>. The single-click and long-press slots
  have been emptied before \<open>onDoubleClick\<close>; on the touch path the suppression window is
  set and the suppression timer is live in its slot and in the queue, on the click path the
  suppression slot is empty too; all three slots are empty at \<open>onLongPress\<close>. Every
  handler makes at most one call; the reset runs after a click callback has returned, and a
  callback that raises leaves the refs and the queue as they stood when it was called.
\<close>

theorem callback_sites:
  "(\<forall>c\<in>set (calls (run cfg init_world evs)). site_ok c) \<and> one_call w e (step cfg w e)"
  using calls_run [of init_world cfg evs] one_call_step [of w e cfg]
  by (simp add: init_world_def)

theorem callback_sites_witness:
  "site_ok (hd (calls (run demo_config init_world double_tap))) \<and>
   suppressTimer (cb_session (hd (calls (run demo_config init_world double_tap)))) =
     Some (TimerId 4) \<and>
   \<lparr>tid = TimerId 4, due = 1210, act = SuppressExpire\<rparr>
     \<in> set (cb_pending (hd (calls (run demo_config init_world double_tap))))"
proof -
  define w where "w = run demo_config init_world
     [TouchStart 1000 (RawEvent 1), TouchEnd 1010 (RawEvent 2), TouchStart 1100 (RawEvent 3)]"
  have e: "run demo_config init_world double_tap = step demo_config w (TouchEnd 1110 (RawEvent 4))"
    by (simp add: w_def double_tap_def run_def)
  have n: "nextId w = 4" "calls w = []"
    unfolding w_def second_touch_down_world by (simp_all add: init_world_def)
  have l: "length (calls (run demo_config init_world double_tap)) = 1"
    unfolding double_tap_world by simp
  note t = callback_sites [of demo_config double_tap w "TouchEnd 1110 (RawEvent 4)"]
  from t l have a: "site_ok (hd (calls (run demo_config init_world double_tap)))"
    by (cases "calls (run demo_config init_world double_tap)") simp_all
  from t have "one_call w (TouchEnd 1110 (RawEvent 4)) (run demo_config init_world double_tap)"
    unfolding e by simp
  with n l obtain c where c: "calls (run demo_config init_world double_tap) = [c]"
    "site_at w (TouchEnd 1110 (RawEvent 4)) c"
    by (auto simp: one_call_def)
  with n a show ?thesis
    by simp
qed

section \<open>After a long press (C3)\<close>

lemma handleTouchEnd_guarded:
  assumes "isLongPress w \<or> longPressDelay cfg \<le> now - touchStartTime w"
  shows "handleTouchEnd cfg now ev w =
     (if now - lastClickTime w < 50 then w
      else resetState False (cancelLongPressTimer (w\<lparr>lastClickTime := now\<rparr>)))"
  using assms
  by (auto simp: handleTouchEnd_def cancelLongPressTimer_eq Let_def)

lemma fireTimer_cases:
  "fireTimer cfg now i w = w \<or>
   (\<exists>t\<in>set (pending w). fireTimer cfg now i w = runAction cfg (act t) (clearTimeout i w))"
  by (auto simp: fireTimer_def split: option.splits dest: find_tid)

lemma after_long_press_clearTimeout:
  "after_long_press w \<Longrightarrow> after_long_press (clearTimeout i w)"
  by (simp add: after_long_press_def clearTimeout_def)

lemma after_long_press_action:
  assumes "after_long_press w" and "\<not> is_single a"
  shows "after_long_press (runAction cfg a w) \<and> click_calls (runAction cfg a w) = click_calls w"
proof (cases a)
  case (LongPressFire ev)
  with assms(1) show ?thesis
    by (cases "onLongPress cfg")
       (auto simp: after_long_press_def click_calls_def runAction_def longPressFired_def
          clearAllTimers_eq set_clearedQueue invoke_def Let_def split: outcome.splits)
next
  case (SingleClickFire ev)
  with assms(2) show ?thesis by simp
next
  case SuppressExpire
  with assms(1) show ?thesis
    by (simp add: after_long_press_def click_calls_def runAction_def suppressExpired_def)
qed

lemma after_long_press_fire:
  assumes "after_long_press w"
  shows "after_long_press (fireTimer cfg now i w) \<and>
         click_calls (fireTimer cfg now i w) = click_calls w"
proof -
  consider "fireTimer cfg now i w = w"
    | t where "t \<in> set (pending w)"
        "fireTimer cfg now i w = runAction cfg (act t) (clearTimeout i w)"
    using fireTimer_cases by blast
  then show ?thesis
  proof cases
    case 1
    with assms show ?thesis by simp
  next
    case 2
    from 2(1) assms have "\<not> is_single (act t)"
      by (simp add: after_long_press_def)
    from after_long_press_action [OF after_long_press_clearTimeout [OF assms] this, of cfg i]
    show ?thesis
      unfolding 2(2) by (simp add: click_calls_def clearTimeout_def)
  qed
qed

lemma after_long_press_step:
  assumes "after_long_press w" and "touch_tail cfg e"
  shows "after_long_press (step cfg w e) \<and> click_calls (step cfg w e) = click_calls w"
proof (cases e)
  case (TouchStart now ev)
  with assms show ?thesis by simp
next
  case TouchMove
  with assms show ?thesis
    by (auto simp: after_long_press_def click_calls_def handleTouchMove_def
        cancelLongPressTimer_eq set_without)
next
  case (TouchEnd now ev)
  with assms have "isLongPress w \<or> longPressDelay cfg \<le> now - touchStartTime w"
    by (auto simp: after_long_press_def)
  from handleTouchEnd_guarded [OF this] TouchEnd assms(1) show ?thesis
    by (auto simp: after_long_press_def click_calls_def prim_eqs set_clearedQueue
        set_without)
next
  case TouchCancel
  with assms show ?thesis
    by (auto simp: after_long_press_def click_calls_def handleTouchCancel_def prim_eqs
        set_clearedQueue clearedQueue_def set_without)
next
  case (Click now ev)
  with assms show ?thesis by simp
next
  case (Reset p)
  with assms show ?thesis
    by (auto simp: after_long_press_def click_calls_def prim_eqs set_clearedQueue)
next
  case Unmount
  with assms show ?thesis
    by (auto simp: after_long_press_def click_calls_def onUnmounted_def prim_eqs
        set_clearedQueue)
next
  case (TimerFires now i)
  with after_long_press_fire [OF assms(1)] show ?thesis by simp
qed

lemma after_long_press_run:
  "after_long_press w \<Longrightarrow> \<forall>e\<in>set evs. touch_tail cfg e \<Longrightarrow>
   click_calls (run cfg w evs) = click_calls w"
proof (induction evs arbitrary: w)
  case Nil
  then show ?case by (simp add: run_Nil)
next
  case (Cons e evs)
  from Cons.prems
  have s: "after_long_press (step cfg w e) \<and> click_calls (step cfg w e) = click_calls w"
    by (intro after_long_press_step) simp_all
  with Cons.IH [of "step cfg w e"] Cons.prems show ?case
    by (simp add: run_Cons)
qed

lemma long_press_fires:
  assumes "single_in_slot w" and "find (\<lambda>t. tid t = i) (pending w) = Some t"
    and "act t = LongPressFire ev" and "due t \<le> now"
  shows "after_long_press (step cfg w (TimerFires now i)) \<and>
         isLongPress (step cfg w (TimerFires now i)) \<and>
         click_calls (step cfg w (TimerFires now i)) = click_calls w"
  using assms
  by (cases "onLongPress cfg")
     (auto simp: after_long_press_def single_in_slot_def click_calls_def fireTimer_def
        runAction_def longPressFired_def clearTimeout_def clearAllTimers_eq set_clearedQueue
        invoke_def Let_def split: outcome.splits)

text \<open>
  C3, as stated, fails: \<open>handleClick\<close> does not look at \<open>isLongPress\<close>. A touch-start at
  1000 whose long-press timer fires at 1800, then clicks at 1850 and 1900 while the touch
  is still held: \<open>onLongPress\<close> and then \<open>onDoubleClick\<close> are called, and \<open>isLongPress\<close>
  is set all the way from the one to the other.
\<close>

theorem long_press_then_double_click:
  "map cb_gesture (calls (run demo_config init_world
      [TouchStart 1000 (RawEvent 1), TimerFires 1800 (TimerId 1), Click 1850 (RawEvent 2),
       Click 1900 (RawEvent 3)])) = [LongPress, DoubleClick] \<and>
   isLongPress (run demo_config init_world
      [TouchStart 1000 (RawEvent 1), TimerFires 1800 (TimerId 1)]) \<and>
   isLongPress (run demo_config init_world
      [TouchStart 1000 (RawEvent 1), TimerFires 1800 (TimerId 1), Click 1850 (RawEvent 2)])"
  by (simp add: run_def demo_config_def init_world_def handleTouchStart_def handleClick_def
      fireTimer_def runAction_def longPressFired_def setTimeout_def clearTimeout_def
      prim_eqs clearedQueue_def invoke_def session_of_def Let_def)

text \<open>
  C3, amended. For every event sequence from the initial state: once the long-press timer
  fires, \<open>isLongPress\<close> is set, and whatever touch-move, touch-end, touch-cancel, reset,
  unmount and timer events follow before the next touch-start or click, neither
  \<open>onSingleClick\<close> nor \<open>onDoubleClick\<close> is called.
\<close>

theorem no_click_after_long_press:
  assumes "find (\<lambda>t. tid t = i) (pending (run cfg init_world pre)) = Some t"
    and "act t = LongPressFire ev" and "due t \<le> now"
    and "\<forall>e\<in>set evs. touch_tail cfg e"
  shows "isLongPress (run cfg init_world (pre @ [TimerFires now i])) \<and>
         click_calls (run cfg init_world (pre @ TimerFires now i # evs)) =
           click_calls (run cfg init_world pre)"
proof -
  have "single_in_slot (run cfg init_world pre)"
    by (simp add: single_in_slot_run init_world_invs)
  from long_press_fires [OF this assms(1-3)] after_long_press_run [OF _ assms(4)]
  show ?thesis
    by (simp add: run_append run_Cons run_Nil)
qed

theorem no_click_after_long_press_witness:
  "click_calls (run demo_config init_world
      [TouchStart 1000 (RawEvent 1), TimerFires 1800 (TimerId 1), TouchMove,
       TouchEnd 1900 (RawEvent 2)]) = [] \<and>
   map cb_gesture (calls (run demo_config init_world
      [TouchStart 1000 (RawEvent 1), TimerFires 1800 (TimerId 1), TouchMove,
       TouchEnd 1900 (RawEvent 2)])) = [LongPress]"
proof -
  define t where "t = \<lparr>tid = TimerId 1, due = 1800, act = LongPressFire (RawEvent 1)\<rparr>"
  have w: "run demo_config init_world [TouchStart 1000 (RawEvent 1)] =
      init_world\<lparr>touchStartTime := 1000, longPressTimer := Some (TimerId 1),
        pending := [t], nextId := 2\<rparr>"
    by (simp add: run_def t_def handleTouchStart_def demo_config_def init_world_def
        setTimeout_def)
  have h: "find (\<lambda>t. tid t = TimerId 1)
        (pending (run demo_config init_world [TouchStart 1000 (RawEvent 1)])) = Some t"
    "act t = LongPressFire (RawEvent 1)" "due t \<le> 1800"
    "\<forall>e\<in>set [TouchMove, TouchEnd 1900 (RawEvent 2)]. touch_tail demo_config e"
    unfolding w by (simp_all add: t_def demo_config_def)
  have c: "click_calls (run demo_config init_world [TouchStart 1000 (RawEvent 1)]) = []"
    unfolding w by (simp add: click_calls_def init_world_def)
  have m: "map cb_gesture (calls (run demo_config init_world
      [TouchStart 1000 (RawEvent 1), TimerFires 1800 (TimerId 1), TouchMove,
       TouchEnd 1900 (RawEvent 2)])) = [LongPress]"
    by (simp add: run_def demo_config_def init_world_def handleTouchStart_def
        handleTouchMove_def handleTouchEnd_def fireTimer_def runAction_def
        longPressFired_def setTimeout_def clearTimeout_def prim_eqs clearedQueue_def
        invoke_def session_of_def Let_def)
  from no_click_after_long_press [OF h] c m show ?thesis
    by simp
qed


end
